theory Spec2Isabelle
  imports Complex_Main "HOL-Library.AList"
begin

section \<open>Python values, errors and dictionaries\<close>

text \<open>
  The add-on is Python: values are dynamically typed, a failing operation raises, and a
  \<^verbatim>\<open>dict\<close> keeps its keys in insertion order. The values that can reach the import code
  are the ones \<^verbatim>\<open>json.load\<close> produces. A \<^verbatim>\<open>str\<close> is a \<^typ>\<open>string\<close>, a JSON object an
  association list with distinct keys. Non-finite floats (\<^verbatim>\<open>NaN\<close>, \<^verbatim>\<open>Infinity\<close>) are left out.
\<close>

datatype pyval =
    PyNone
  | PyBool bool
  | PyInt int
  | PyFloat rat
  | PyStr string
  | PyList "pyval list"
  | PyDict "(string \<times> pyval) list"

text \<open>The exceptions the modelled code can raise.\<close>

datatype error =
    FileNotFoundError
  | ValueError
  | UnpicklingError
  | TypeError
  | KeyError
  | AttributeError
  | ZeroDivisionError
  | IndexError
  | EOFError
  | ImportError

text \<open>
  A dictionary key is a hashable value. Python identifies \<^verbatim>\<open>True\<close>, \<^verbatim>\<open>1\<close> and \<^verbatim>\<open>1.0\<close>
  as keys (equal, with equal hashes), so numbers are keyed by their value.
  Lists and dicts are unhashable: using one as a key raises \<^verbatim>\<open>TypeError\<close>.
\<close>

datatype pykey = KNone | KNum rat | KStr string

fun hashable :: "pyval \<Rightarrow> error + pykey" where
  "hashable PyNone = Inr KNone"
| "hashable (PyBool b) = Inr (KNum (if b then 1 else 0))"
| "hashable (PyInt i) = Inr (KNum (of_int i))"
| "hashable (PyFloat q) = Inr (KNum q)"
| "hashable (PyStr s) = Inr (KStr s)"
| "hashable (PyList xs) = Inl TypeError"
| "hashable (PyDict kvs) = Inl TypeError"

text \<open>
  \<^verbatim>\<open>d[k] = v\<close> replaces the value of a key that is present and appends a new key
  otherwise: this is \<^const>\<open>AList.update\<close>. \<^verbatim>\<open>d[k]\<close> is \<^const>\<open>map_of\<close>, raising
  \<^verbatim>\<open>KeyError\<close> where it gives \<^const>\<open>None\<close>; \<^verbatim>\<open>len(d)\<close> is \<^const>\<open>length\<close>.
\<close>

definition endswith :: "string \<Rightarrow> string \<Rightarrow> bool" where
  "endswith s suffix =
     (length suffix \<le> length s \<and> drop (length s - length suffix) s = suffix)"

text \<open>\<^verbatim>\<open>sub in s\<close> for two strings: \<^verbatim>\<open>sub\<close> occurs in \<^verbatim>\<open>s\<close> as a contiguous run.\<close>

fun str_contains :: "string \<Rightarrow> string \<Rightarrow> bool" where
  "str_contains [] sub = (sub = [])"
| "str_contains (c # cs) sub =
     (take (length sub) (c # cs) = sub \<or> str_contains cs sub)"

section \<open>The session's strings\<close>

text \<open>
  Modelled from the spec: \<^verbatim>\<open>utils.String\<close> and its \<^verbatim>\<open>Status\<close> enumeration are imported by
  \<^verbatim>\<open>addons.py\<close> and are not among the sources. The spec's StringRecord gives the fields and
  the three statuses; \<^verbatim>\<open>editor_id\<close>, \<^verbatim>\<open>form_id\<close>, \<^verbatim>\<open>type\<close> and \<^verbatim>\<open>index\<close> are optional there.
  \<^verbatim>\<open>translated_string\<close> holds whatever the import assigns, so it is a \<^typ>\<open>pyval\<close>.
\<close>

datatype Status = Untranslated | TranslationIncomplete | TranslationComplete

record StringRecord =
  editor_id :: "string option"
  form_id :: "string option"
  type :: "string option"
  index :: "int option"
  original_string :: string
  translated_string :: pyval
  status :: Status

text \<open>
  \<^verbatim>\<open>self.editor.items\<close> is a dict from tree items to strings, walked in insertion
  order and never resized by the code below: the session is the list of its strings,
  each tree item holding a string of its own.
\<close>

type_synonym items = "StringRecord list"

section \<open>Loading a translation source\<close>

text \<open>
  What a loaded mapping holds, and what a pickled sequence yields: a plain value, or an
  instance of \<^verbatim>\<open>utils.String\<close>. A plain value has no attribute \<^verbatim>\<open>original_string\<close>.
\<close>

datatype pyobject = Val pyval | Str StringRecord

type_synonym data = "(pykey \<times> pyobject) list"

text \<open>
  What \<^verbatim>\<open>pickle.load\<close> returns when it returns: an iterable of objects, or an object that
  cannot be iterated.
\<close>

datatype pickled = PickleSeq "pyobject list" | PickleScalar

text \<open>
  A file, as the two decoders see it: what \<^verbatim>\<open>json.load\<close> does with it and what
  \<^verbatim>\<open>pickle.load\<close> does with it, each returning a value or raising an exception of its own
  (\<^verbatim>\<open>json.load\<close> a \<^verbatim>\<open>ValueError\<close>; \<^verbatim>\<open>pickle.load\<close> an \<^verbatim>\<open>UnpicklingError\<close>, a \<^verbatim>\<open>ValueError\<close>, an
  \<^verbatim>\<open>EOFError\<close> on an empty file, an \<^verbatim>\<open>ImportError\<close> on an unknown class). A path with no
  file is \<^const>\<open>None\<close>, and \<^verbatim>\<open>open\<close> raises \<^verbatim>\<open>FileNotFoundError\<close> there.
\<close>

datatype file_content =
  File (json_load: "error + pyval") (pickle_load: "error + pickled")

type_synonym filesystem = "string \<Rightarrow> file_content option"

text \<open>\<^verbatim>\<open>for entry in f\<close> over a decoded JSON value.\<close>

fun py_iter :: "pyval \<Rightarrow> error + pyval list" where
  "py_iter (PyList xs) = Inr xs"
| "py_iter (PyDict kvs) = Inr (map (\<lambda>kv. PyStr (fst kv)) kvs)"
| "py_iter (PyStr s) = Inr (map (\<lambda>c. PyStr [c]) s)"
| "py_iter v = Inl TypeError"

text \<open>
  \<^verbatim>\<open>x[name]\<close> with a string subscript: a dict looks the key up and raises
  \<^verbatim>\<open>KeyError\<close> when it is absent; a \<^verbatim>\<open>str\<close>, a list, a number, \<^verbatim>\<open>None\<close> and a \<^verbatim>\<open>String\<close>
  instance raise \<^verbatim>\<open>TypeError\<close>.
\<close>

fun getitem :: "pyobject \<Rightarrow> string \<Rightarrow> error + pyval" where
  "getitem (Val (PyDict kvs)) name =
     (case map_of kvs name of None \<Rightarrow> Inl KeyError | Some v \<Rightarrow> Inr v)"
| "getitem obj name = Inl TypeError"

text \<open>The JSON branch of \<^verbatim>\<open>Worker.load_data\<close>: \<^verbatim>\<open>data[entry['original']] = entry\<close>.\<close>

fun load_json_entries :: "pyval list \<Rightarrow> data \<Rightarrow> error + data" where
  "load_json_entries [] d = Inr d"
| "load_json_entries (entry # f) d =
     (case getitem (Val entry) ''original'' of
        Inl e \<Rightarrow> Inl e
      | Inr k \<Rightarrow>
          (case hashable k of
             Inl e \<Rightarrow> Inl e
           | Inr key \<Rightarrow> load_json_entries f (AList.update key (Val entry) d)))"

text \<open>The pickle branch: \<^verbatim>\<open>data[entry.original_string] = entry\<close>.\<close>

fun load_pickle_entries :: "pyobject list \<Rightarrow> data \<Rightarrow> error + data" where
  "load_pickle_entries [] d = Inr d"
| "load_pickle_entries (Val v # f) d = Inl AttributeError"
| "load_pickle_entries (Str e # f) d =
     load_pickle_entries f (AList.update (KStr (original_string e)) (Str e) d)"

text \<open>
  \<^verbatim>\<open>Worker.load_data\<close>. The path is \<^const>\<open>None\<close> when \<^verbatim>\<open>load_from_db\<close> is called without
  one (the Ctrl+E shortcut): \<^verbatim>\<open>self.path.endswith\<close> then raises \<^verbatim>\<open>AttributeError\<close>. Any path
  that does not end in \<^verbatim>\<open>.json\<close> is read as a pickle.
\<close>

definition load_data :: "filesystem \<Rightarrow> string option \<Rightarrow> error + data" where
  "load_data fs path =
     (case path of
        None \<Rightarrow> Inl AttributeError
      | Some p \<Rightarrow>
          if endswith p ''.json'' then
            (case fs p of
               None \<Rightarrow> Inl FileNotFoundError
             | Some file \<Rightarrow>
                 (case json_load file of
                    Inl e \<Rightarrow> Inl e
                  | Inr f \<Rightarrow>
                      (case py_iter f of
                         Inl e \<Rightarrow> Inl e
                       | Inr entries \<Rightarrow> load_json_entries entries [])))
          else
            (case fs p of
               None \<Rightarrow> Inl FileNotFoundError
             | Some file \<Rightarrow>
                 (case pickle_load file of
                    Inl e \<Rightarrow> Inl e
                  | Inr f \<Rightarrow>
                      (case f of
                         PickleSeq entries \<Rightarrow> load_pickle_entries entries []
                       | PickleScalar \<Rightarrow> Inl TypeError))))"

section \<open>Reconciliation\<close>

text \<open>Truth value of a plain value, as \<^verbatim>\<open>if x:\<close> tests it.\<close>

fun py_bool :: "pyval \<Rightarrow> bool" where
  "py_bool PyNone = False"
| "py_bool (PyBool b) = b"
| "py_bool (PyInt i) = (i \<noteq> 0)"
| "py_bool (PyFloat q) = (q \<noteq> 0)"
| "py_bool (PyStr s) = (s \<noteq> [])"
| "py_bool (PyList xs) = (xs \<noteq> [])"
| "py_bool (PyDict kvs) = (kvs \<noteq> [])"

text \<open>
  The truth value of a \<^verbatim>\<open>String\<close> instance is decided by its class, which is not among
  the sources: it is the parameter \<open>truthy\<close> of everything below.
\<close>

fun obj_bool :: "(StringRecord \<Rightarrow> bool) \<Rightarrow> pyobject \<Rightarrow> bool" where
  "obj_bool truthy (Val v) = py_bool v"
| "obj_bool truthy (Str e) = truthy e"

text \<open>
  The body of the \<^verbatim>\<open>try\<close> in \<^verbatim>\<open>Worker.import_data\<close> (lines 94 to 103) for one string.
  Every lookup that can raise comes before the first assignment, so a raise leaves the
  string as it was. \<^verbatim>\<open>utils.trim_string\<close> is not among the sources: the call
  \<^verbatim>\<open>tree_item.setText(4, utils.trim_string(...))\<close> is taken to redraw a cell of the tree and
  return.
\<close>

definition import_string ::
  "(StringRecord \<Rightarrow> bool) \<Rightarrow> data \<Rightarrow> bool \<Rightarrow> StringRecord \<Rightarrow> error + StringRecord" where
  "import_string truthy d json_format s =
     (case map_of d (KStr (original_string s)) of
        None \<Rightarrow> Inl KeyError
      | Some entry \<Rightarrow>
          if json_format then
            (case getitem entry ''string'' of
               Inl e \<Rightarrow> Inl e
             | Inr v \<Rightarrow>
                 if v \<noteq> PyStr (original_string s)
                 then Inr (s\<lparr>translated_string := v, status := TranslationIncomplete\<rparr>)
                 else Inr s)
          else if obj_bool truthy entry then
            (case entry of
               Val v \<Rightarrow> Inl AttributeError
             | Str e \<Rightarrow>
                 Inr (s\<lparr>translated_string := translated_string e, status := status e\<rparr>))
          else Inr s)"

subsection \<open>Binary floating point for the progress value\<close>

text \<open>
  \<^verbatim>\<open>int((i + 1) / total_entries * 100)\<close> divides two ints into a float, multiplies the
  float by 100 and truncates. Both operations round the exact result to the nearest
  binary64 number, ties to even. The numbers are modelled by the rationals they are;
  lengths of lists are far from the range where binary64 overflows or denormalises, so
  the exponent is left unbounded.
\<close>

fun bit_length :: "nat \<Rightarrow> nat" where
  "bit_length n = (if n = 0 then 0 else Suc (bit_length (n div 2)))"

definition pow2 :: "int \<Rightarrow> rat" where
  "pow2 k = (if 0 \<le> k then 2 ^ nat k else 1 / 2 ^ nat (- k))"

definition round_half_even :: "rat \<Rightarrow> int" where
  "round_half_even q =
     (let f = \<lfloor>q\<rfloor>; r = q - of_int f
      in if r < 1 / 2 then f
         else if 1 / 2 < r then f + 1
         else if even f then f else f + 1)"

text \<open>
  The exponent \<open>e\<close> of a positive rational, \<open>2 ^ e \<le> q < 2 ^ (e + 1)\<close>: read off the
  length of the integer part of \<open>q\<close>, or of \<open>1 / q\<close> when \<open>q < 1\<close>.
\<close>

definition float_exponent :: "rat \<Rightarrow> int" where
  "float_exponent q =
     (if 1 \<le> q then int (bit_length (nat \<lfloor>q\<rfloor>)) - 1
      else - int (bit_length (nat (\<lceil>1 / q\<rceil> - 1))))"

text \<open>Rounding to 53 significant bits.\<close>

definition fl64 :: "rat \<Rightarrow> rat" where
  "fl64 q =
     (if q = 0 then 0
      else let e = float_exponent \<bar>q\<bar>; u = pow2 (e - 52)
           in of_int (round_half_even (q / u)) * u)"

definition progress_value :: "nat \<Rightarrow> nat \<Rightarrow> int" where
  "progress_value i total_entries =
     \<lfloor>fl64 (fl64 (of_nat (i + 1) / of_nat total_entries) * 100)\<rfloor>"

subsection \<open>The import loop and the worker\<close>

text \<open>
  \<^verbatim>\<open>Worker.import_data\<close>: the loop over the session, with the counter \<open>i\<close>. The result is
  the session as the loop left it, the progress values emitted in order, and the
  exception that ended the loop, if any. A \<^verbatim>\<open>KeyError\<close> is caught and \<^verbatim>\<open>continue\<close> skips the
  rest of the body: no progress value and no increment of \<open>i\<close>. Any other exception
  leaves the loop with the strings before it already changed. A zero
  \<^verbatim>\<open>total_entries\<close> raises \<^verbatim>\<open>ZeroDivisionError\<close> at the division.
\<close>

fun import_loop ::
  "(StringRecord \<Rightarrow> bool) \<Rightarrow> data \<Rightarrow> nat \<Rightarrow> bool \<Rightarrow> nat \<Rightarrow> items
     \<Rightarrow> items \<times> int list \<times> error option" where
  "import_loop truthy d total_entries json_format i [] = ([], [], None)"
| "import_loop truthy d total_entries json_format i (s # rest) =
     (case (if status s \<noteq> TranslationComplete
            then import_string truthy d json_format s else Inr s) of
        Inl e \<Rightarrow>
          if e = KeyError then
            (case import_loop truthy d total_entries json_format i rest of
               (rest', ps, err) \<Rightarrow> (s # rest', ps, err))
          else (s # rest, [], Some e)
      | Inr s' \<Rightarrow>
          if total_entries = 0 then (s' # rest, [], Some ZeroDivisionError)
          else
            (case import_loop truthy d total_entries json_format (i + 1) rest of
               (rest', ps, err) \<Rightarrow> (s' # rest', progress_value i total_entries # ps, err)))"

definition import_data ::
  "(StringRecord \<Rightarrow> bool) \<Rightarrow> data \<Rightarrow> nat \<Rightarrow> bool \<Rightarrow> items
     \<Rightarrow> items \<times> int list \<times> error option" where
  "import_data truthy d total_entries json_format its =
     import_loop truthy d total_entries json_format 0 its"

text \<open>The signals of \<^verbatim>\<open>WorkerSignals\<close>, with what each carries.\<close>

datatype signal = Progress int | Result string | Error error | Finished

text \<open>
  \<^verbatim>\<open>Worker.run\<close>: the session afterwards and the signals emitted, in order. Every
  exception of the \<^verbatim>\<open>try\<close> block becomes an error signal, and \<^verbatim>\<open>finished\<close> is emitted last on
  every path. \<^verbatim>\<open>self.editor.update_string_list()\<close> refreshes the view.
\<close>

definition run ::
  "(StringRecord \<Rightarrow> bool) \<Rightarrow> filesystem \<Rightarrow> string option \<Rightarrow> items \<Rightarrow> items \<times> signal list" where
  "run truthy fs path its =
     (case load_data fs path of
        Inl e \<Rightarrow> (its, [Error e, Finished])
      | Inr d \<Rightarrow>
          (case path of
             None \<Rightarrow> (its, [Error AttributeError, Finished])
           | Some p \<Rightarrow>
               (case import_data truthy d (length d) (endswith p ''.json'') its of
                  (its', ps, Some e) \<Rightarrow> (its', map Progress ps @ [Error e, Finished])
                | (its', ps, None) \<Rightarrow>
                    (its', map Progress ps @ [Result ''DB_IMPORTED'', Finished]))))"

subsection \<open>The slot for the result signal\<close>

text \<open>
  \<^verbatim>\<open>EditorAddon.update_gui_with_data\<close>, which \<^verbatim>\<open>load_from_db\<close> connects to the result
  signal. The signal carries a \<^verbatim>\<open>str\<close>, so \<^verbatim>\<open>string.original_string in data\<close> is the substring
  test and \<^verbatim>\<open>data[string.original_string]\<close> subscripts a \<^verbatim>\<open>str\<close> with a \<^verbatim>\<open>str\<close>: it raises
  \<^verbatim>\<open>TypeError\<close> before anything is assigned, and the handler catches \<^verbatim>\<open>KeyError\<close> only.
\<close>

fun update_gui_with_data :: "string \<Rightarrow> items \<Rightarrow> items \<times> error option" where
  "update_gui_with_data d [] = ([], None)"
| "update_gui_with_data d (s # rest) =
     (if status s \<noteq> TranslationComplete \<and> str_contains d (original_string s)
      then (s # rest, Some TypeError)
      else (case update_gui_with_data d rest of (rest', err) \<Rightarrow> (s # rest', err)))"

text \<open>
  \<^verbatim>\<open>EditorAddon.load_from_db\<close>: the worker runs and each result signal reaches
  \<^verbatim>\<open>update_gui_with_data\<close>; the other slots move the progress dialog or print. The result
  is the session afterwards, the signals, and the exceptions raised inside the slot.
\<close>

fun deliver :: "signal list \<Rightarrow> items \<Rightarrow> items \<times> error list" where
  "deliver [] its = (its, [])"
| "deliver (Result d # sigs) its =
     (case update_gui_with_data d its of
        (its', err) \<Rightarrow>
          (case deliver sigs its' of
             (its'', errs) \<Rightarrow> (its'', (case err of None \<Rightarrow> [] | Some e \<Rightarrow> [e]) @ errs)))"
| "deliver (sig # sigs) its = deliver sigs its"

definition load_from_db ::
  "(StringRecord \<Rightarrow> bool) \<Rightarrow> filesystem \<Rightarrow> string option \<Rightarrow> items
     \<Rightarrow> items \<times> signal list \<times> error list" where
  "load_from_db truthy fs path its =
     (case run truthy fs path its of
        (its', sigs) \<Rightarrow> (case deliver sigs its' of (its'', errs) \<Rightarrow> (its'', sigs, errs)))"

section \<open>Export to JSON\<close>

definition opt_str :: "string option \<Rightarrow> pyval" where
  "opt_str x = (case x of None \<Rightarrow> PyNone | Some t \<Rightarrow> PyStr t)"

text \<open>
  The first loop of \<^verbatim>\<open>EditorAddon.export_json\<close>: the list \<^verbatim>\<open>data\<close> of entries, \<open>i\<close> being the
  position \<^verbatim>\<open>enumerate\<close> counts.
\<close>

fun export_data :: "bool \<Rightarrow> nat \<Rightarrow> items \<Rightarrow> pyval list" where
  "export_data full i [] = []"
| "export_data full i (s # rest) =
     (if full \<or> status s \<noteq> TranslationComplete
      then [PyDict [(''index'', PyInt (int i)),
                    (''type'', opt_str (type s)),
                    (''original'', PyStr (original_string s)),
                    (''string'', translated_string s)]]
      else [])
     @ export_data full (i + 1) rest"

text \<open>
  The file written: \<^verbatim>\<open>[\<close>, the entries one per line with commas between them, \<^verbatim>\<open>]\<close>, which
  is the JSON text of the list. Its first byte is \<^verbatim>\<open>[\<close>, which is no pickle opcode, so
  \<^verbatim>\<open>pickle.load\<close> raises \<^verbatim>\<open>UnpicklingError\<close> on it. \<open>path\<close> is the export path without its
  extension.
\<close>

definition export_json :: "bool \<Rightarrow> string \<Rightarrow> items \<Rightarrow> filesystem \<Rightarrow> filesystem" where
  "export_json full path its fs =
     fs(path @ ''.json'' :=
          Some (File (Inr (PyList (export_data full 0 its))) (Inl UnpicklingError)))"

section \<open>Import from a translated plugin\<close>

text \<open>
  The keys of \<^verbatim>\<open>translation_strings\<close> are the tuples \<^verbatim>\<open>(editor_id, type)\<close> or
  \<^verbatim>\<open>(editor_id, form_id, type)\<close>.
\<close>

datatype esp_key =
    Key2 "string option" "string option"
  | Key3 "string option" "string option" "string option"

definition string_key :: "bool \<Rightarrow> StringRecord \<Rightarrow> esp_key" where
  "string_key only_edid s =
     (if only_edid then Key2 (editor_id s) (type s)
      else Key3 (editor_id s) (form_id s) (type s))"

text \<open>
  \<^verbatim>\<open>EditorAddon.extract_translation_strings\<close>. The strings of the plugin come from
  \<^verbatim>\<open>Plugin.extract_strings\<close>, which is not among the sources: they are the argument
  \<open>plugin_strings\<close>. A key that is new gets the list of the one string, a key that is
  present gets the string appended.
\<close>

fun extract_loop ::
  "StringRecord list \<Rightarrow> bool \<Rightarrow> (esp_key \<times> StringRecord list) list
     \<Rightarrow> (esp_key \<times> StringRecord list) list" where
  "extract_loop [] only_edid translations_dict = translations_dict"
| "extract_loop (s # rest) only_edid translations_dict =
     (let key = string_key only_edid s
      in extract_loop rest only_edid
           (case map_of translations_dict key of
              None \<Rightarrow> AList.update key [s] translations_dict
            | Some strings \<Rightarrow> AList.update key (strings @ [s]) translations_dict))"

definition extract_translation_strings ::
  "StringRecord list \<Rightarrow> bool \<Rightarrow> (esp_key \<times> StringRecord list) list" where
  "extract_translation_strings plugin_strings only_edid =
     extract_loop plugin_strings only_edid []"

text \<open>
  The body of the loop of \<^verbatim>\<open>EditorAddon.import_esp\<close> (lines 245 to 270) for one string.
  \<^verbatim>\<open>translation_strings[key][0]\<close> raises \<^verbatim>\<open>IndexError\<close> on an empty list.
\<close>

definition import_esp_string ::
  "bool \<Rightarrow> (esp_key \<times> StringRecord list) list \<Rightarrow> StringRecord \<Rightarrow> error + StringRecord" where
  "import_esp_string only_edid translation_strings s =
     (if status s = TranslationComplete then Inr s
      else if editor_id s = None \<and> only_edid then Inr s
      else
        (case map_of translation_strings (string_key only_edid s) of
           None \<Rightarrow> Inr s
         | Some candidates \<Rightarrow>
             if length candidates > 1 then
               (case filter (\<lambda>trans. index trans = index s) candidates of
                  [] \<Rightarrow> Inr s
                | translation # others \<Rightarrow>
                    Inr (s\<lparr>translated_string := PyStr (original_string translation),
                           status := TranslationIncomplete\<rparr>))
             else
               (case candidates of
                  [] \<Rightarrow> Inl IndexError
                | translation # others \<Rightarrow>
                    Inr (s\<lparr>translated_string := PyStr (original_string translation),
                           status := TranslationIncomplete\<rparr>))))"

fun import_esp_loop ::
  "bool \<Rightarrow> (esp_key \<times> StringRecord list) list \<Rightarrow> items \<Rightarrow> items \<times> error option" where
  "import_esp_loop only_edid translation_strings [] = ([], None)"
| "import_esp_loop only_edid translation_strings (s # rest) =
     (case import_esp_string only_edid translation_strings s of
        Inl e \<Rightarrow> (s # rest, Some e)
      | Inr s' \<Rightarrow>
          (case import_esp_loop only_edid translation_strings rest of
             (rest', err) \<Rightarrow> (s' # rest', err)))"

text \<open>
  \<^verbatim>\<open>EditorAddon.import_esp\<close>. \<open>selected\<close> is \<^const>\<open>None\<close> when the file dialog is rejected
  or returns no file, and the strings of the chosen plugin otherwise.
\<close>

definition import_esp ::
  "StringRecord list option \<Rightarrow> bool \<Rightarrow> items \<Rightarrow> items \<times> error option" where
  "import_esp selected only_edid its =
     (case selected of
        None \<Rightarrow> (its, None)
      | Some plugin_strings \<Rightarrow>
          import_esp_loop only_edid
            (extract_translation_strings plugin_strings only_edid) its)"

section \<open>The animated stacked widget\<close>

datatype Direction = LeftToRight | RightToLeft | TopToBottom | BottomToTop | Automatic

datatype Orientation = Vertical | Horizontal

text \<open>
  \<^verbatim>\<open>StackedWidget.slideInIndex\<close>: the result is the pair handed to \<^verbatim>\<open>slideInWidget\<close>, the
  position of the page and the direction. \<^verbatim>\<open>count\<close> is \<^verbatim>\<open>self.count()\<close>. Python's \<^verbatim>\<open>%\<close>
  takes the sign of the divisor, as \<^const>\<open>modulo\<close> on \<^typ>\<open>int\<close> does, and raises on a zero
  divisor.
\<close>

definition slideInIndex ::
  "Orientation \<Rightarrow> int \<Rightarrow> int \<Rightarrow> Direction \<Rightarrow> error + (int \<times> Direction)" where
  "slideInIndex orientation count idx direction =
     (if idx > count - 1 then
        (if count = 0 then Inl ZeroDivisionError
         else Inr (idx mod count,
                   if orientation = Vertical then TopToBottom else RightToLeft))
      else if idx < 0 then
        (if count = 0 then Inl ZeroDivisionError
         else Inr ((idx + count) mod count,
                   if orientation = Vertical then BottomToTop else LeftToRight))
      else Inr (idx, direction))"

section \<open>Example data\<close>

text \<open>
  A string of a session, and a file system with: the export of the spec's scenario
  (\<^verbatim>\<open>[{"original":"foo","string":"bar"}]\<close>); an empty export (\<^verbatim>\<open>[]\<close>); a file of text that is
  not JSON; a legacy database, a binary pickle holding one finished translation of the
  string; the same pickle under a name with another extension; and an empty file.
\<close>

definition foo_string :: StringRecord where
  "foo_string =
     \<lparr>editor_id = Some ''Edid'', form_id = Some ''0001'', type = Some ''BOOK'', index = None,
      original_string = ''foo'', translated_string = PyNone, status = Untranslated\<rparr>"

definition example_fs :: filesystem where
  "example_fs =
     (\<lambda>p. None)
       (''export.json'' \<mapsto>
          File (Inr (PyList [PyDict [(''original'', PyStr ''foo''), (''string'', PyStr ''bar'')]]))
               (Inl UnpicklingError),
        ''empty.json'' \<mapsto> File (Inr (PyList [])) (Inl UnpicklingError),
        ''broken.json'' \<mapsto> File (Inl ValueError) (Inl UnpicklingError),
        ''legacy.ats'' \<mapsto>
          File (Inl ValueError)
               (Inr (PickleSeq [Str (foo_string\<lparr>translated_string := PyStr ''bar'',
                                                  status := TranslationComplete\<rparr>)])),
        ''notes.txt'' \<mapsto>
          File (Inl ValueError)
               (Inr (PickleSeq [Str (foo_string\<lparr>translated_string := PyStr ''bar'',
                                                  status := TranslationComplete\<rparr>)])),
        ''empty.ats'' \<mapsto> File (Inl ValueError) (Inl EOFError))"

section \<open>Properties\<close>

subsection \<open>The floating-point model\<close>

text \<open>
  The exponent found by \<^const>\<open>float_exponent\<close> brackets a positive rational between two
  consecutive powers of two, and \<^const>\<open>fl64\<close> moves it by at most half a unit in the last
  of its 53 places.
\<close>

declare bit_length.simps [simp del]

lemma bit_length_0: "bit_length 0 = 0"
  by (simp add: bit_length.simps)

lemma bit_length_numeral: "bit_length (numeral k) = Suc (bit_length (numeral k div 2))"
  by (subst bit_length.simps) simp

lemma bit_length_Suc_0: "bit_length (Suc 0) = Suc 0"
  by (simp add: bit_length.simps)

lemma floor_rat_numeral: "\<lfloor>(numeral a :: rat) / numeral b\<rfloor> = numeral a div numeral b"
  by (metis floor_divide_of_int_eq of_int_numeral)

lemma ceiling_rat_numeral:
  "\<lceil>(numeral a :: rat) / numeral b\<rceil> = - (- numeral a div numeral b)"
  by (metis ceiling_def floor_divide_of_int_eq of_int_numeral of_int_neg_numeral minus_divide_left)

lemma bit_length_bounds:
  "0 < n \<Longrightarrow> 2 ^ (bit_length n - 1) \<le> n \<and> n < 2 ^ bit_length n"
proof (induction n rule: bit_length.induct)
  case (1 n)
  show ?case
  proof (cases "n div 2 = 0")
    case True
    with "1.prems" have "n = 1" by (simp add: div_eq_0_iff) 
    then show ?thesis
      by (simp add: bit_length_Suc_0)
  next
    case False
    with "1.IH" "1.prems" have ih: "2 ^ (bit_length (n div 2) - 1) \<le> n div 2"
      "n div 2 < 2 ^ bit_length (n div 2)"
      by simp_all
    have pos: "0 < bit_length (n div 2)"
      using False by (subst bit_length.simps) simp
    have bl: "bit_length n = Suc (bit_length (n div 2))"
      using "1.prems" by (subst bit_length.simps) simp
    have "2 ^ (bit_length n - 1) = 2 * 2 ^ (bit_length (n div 2) - 1)"
      using pos bl by (cases "bit_length (n div 2)") simp_all
    also have "\<dots> \<le> 2 * (n div 2)" using ih(1) by simp
    also have "\<dots> \<le> n" by simp
    finally have lo: "2 ^ (bit_length n - 1) \<le> n" .
    have "n < 2 * (n div 2) + 2" by presburger
    also have "\<dots> \<le> 2 * 2 ^ bit_length (n div 2)" using ih(2) by simp
    finally have "n < 2 ^ bit_length n" using bl by simp
    with lo show ?thesis by simp
  qed
qed

lemma pow2_nonneg: "pow2 (int m) = 2 ^ m"
  by (simp add: pow2_def)

lemma pow2_neg: "pow2 (- int m) = 1 / 2 ^ m"
  by (cases m) (simp_all add: pow2_def nat_add_distrib)

lemma float_exponent_bounds:
  assumes "0 < q"
  shows "pow2 (float_exponent q) \<le> q \<and> q < pow2 (float_exponent q + 1)"
proof (cases "1 \<le> q")
  case True
  define n where "n = nat \<lfloor>q\<rfloor>"
  from True have n: "0 < n" "of_nat n \<le> q" "q < of_nat n + 1"
    by (simp_all add: n_def) linarith+
  from bit_length_bounds [OF n(1)] have b: "2 ^ (bit_length n - 1) \<le> n" "n < 2 ^ bit_length n"
    by simp_all
  have pos: "0 < bit_length n"
    using n(1) by (subst bit_length.simps) simp
  have e: "float_exponent q = int (bit_length n - 1)"
    using True pos by (simp add: float_exponent_def n_def of_nat_diff)
  have "pow2 (float_exponent q) = 2 ^ (bit_length n - 1)"
    by (simp only: e pow2_nonneg)
  also have "\<dots> \<le> (of_nat n :: rat)"
    using b(1) by (metis of_nat_le_iff of_nat_numeral of_nat_power)
  finally have lo: "pow2 (float_exponent q) \<le> q" using n(2) by simp
  have "float_exponent q + 1 = int (bit_length n)"
    using e pos by simp
  then have "pow2 (float_exponent q + 1) = 2 ^ bit_length n"
    by (simp only: pow2_nonneg)
  moreover have "(of_nat n :: rat) + 1 \<le> 2 ^ bit_length n"
  proof -
    from b(2) have "n + 1 \<le> 2 ^ bit_length n" by simp
    then have "(of_nat (n + 1) :: rat) \<le> of_nat (2 ^ bit_length n)"
      by (simp only: of_nat_le_iff)
    then show ?thesis by simp
  qed
  ultimately have "q < pow2 (float_exponent q + 1)" using n(3) by simp
  with lo show ?thesis by simp
next
  case False
  define m where "m = nat (\<lceil>1 / q\<rceil> - 1)"
  from False assms have inv: "1 < 1 / q" by simp
  then have "1 < \<lceil>1 / q\<rceil>" by (simp add: less_ceiling_iff)
  then have c: "2 \<le> \<lceil>1 / q\<rceil>" by simp
  have m: "0 < m" "int m = \<lceil>1 / q\<rceil> - 1"
    using c unfolding m_def by linarith+
  have mlt: "of_nat m < 1 / q"
  proof -
    have "of_int (\<lceil>1 / q\<rceil> - 1) < 1 / q" by linarith
    then show ?thesis using m(2) by (metis of_int_of_nat_eq)
  qed
  have mge: "1 / q \<le> of_nat m + 1"
  proof -
    have "1 / q \<le> of_int (\<lceil>1 / q\<rceil> - 1) + 1" by simp
    then show ?thesis using m(2) by (metis of_int_of_nat_eq)
  qed
  from bit_length_bounds [OF m(1)] have b: "2 ^ (bit_length m - 1) \<le> m" "m < 2 ^ bit_length m"
    by simp_all
  have pos: "0 < bit_length m"
    using m(1) by (subst bit_length.simps) simp
  have e: "float_exponent q = - int (bit_length m)"
    using False by (simp add: float_exponent_def m_def)
  have up: "(of_nat m :: rat) + 1 \<le> 2 ^ bit_length m"
  proof -
    from b(2) have "m + 1 \<le> 2 ^ bit_length m" by simp
    then have "(of_nat (m + 1) :: rat) \<le> of_nat (2 ^ bit_length m)"
      by (simp only: of_nat_le_iff)
    then show ?thesis by simp
  qed
  have "1 / q \<le> 2 ^ bit_length m" using mge up by simp
  then have "1 \<le> 2 ^ bit_length m * q"
    using assms by (simp add: pos_divide_le_eq)
  then have "1 / 2 ^ bit_length m \<le> q"
    by (simp add: pos_divide_le_eq mult.commute)
  then have lo: "pow2 (float_exponent q) \<le> q"
    by (simp only: e pow2_neg)
  have e1: "float_exponent q + 1 = - int (bit_length m - 1)"
    using e pos by simp
  have "(2 :: rat) ^ (bit_length m - 1) \<le> of_nat m"
    using b(1) by (metis of_nat_le_iff of_nat_numeral of_nat_power)
  from this mlt have "2 ^ (bit_length m - 1) < 1 / q" by (rule le_less_trans)
  then have "2 ^ (bit_length m - 1) * q < 1"
    using assms by (simp add: pos_less_divide_eq)
  then have "q < 1 / 2 ^ (bit_length m - 1)"
    by (simp add: pos_less_divide_eq mult.commute)
  then have "q < pow2 (float_exponent q + 1)"
    by (simp only: e1 pow2_neg)
  with lo show ?thesis by simp
qed


lemma pow2_pos: "0 < pow2 k"
  by (simp add: pow2_def)

lemma round_half_even_nearest: "\<bar>q - of_int (round_half_even q)\<bar> \<le> 1 / 2"
proof -
  define f where "f = \<lfloor>q\<rfloor>"
  define r where "r = q - of_int f"
  have r: "0 \<le> r" "r < 1"
    unfolding r_def f_def by linarith+
  have q: "q = of_int f + r"
    by (simp add: r_def)
  have rh: "round_half_even q =
              (if r < 1 / 2 then f else if 1 / 2 < r then f + 1 else if even f then f else f + 1)"
    by (simp add: round_half_even_def Let_def f_def r_def)
  have "\<bar>of_int f + r - of_int (round_half_even q)\<bar> \<le> 1 / 2"
    unfolding rh using r by (auto simp: abs_if)
  then show ?thesis
    using q by simp
qed

lemma fl64_nearest:
  assumes "0 < q"
  shows "\<bar>q - fl64 q\<bar> \<le> pow2 (float_exponent q - 52) / 2"
proof -
  define u where "u = pow2 (float_exponent q - 52)"
  have u: "0 < u" by (simp add: u_def pow2_pos)
  have fl: "fl64 q = of_int (round_half_even (q / u)) * u"
    using assms by (simp add: fl64_def Let_def u_def)
  have "q - fl64 q = (q / u - of_int (round_half_even (q / u))) * u"
    using u by (simp add: fl algebra_simps)
  then have "\<bar>q - fl64 q\<bar> = \<bar>q / u - of_int (round_half_even (q / u))\<bar> * u"
    using u by (simp add: abs_mult)
  also have "\<dots> \<le> (1 / 2) * u"
    using round_half_even_nearest [of "q / u"] u by (intro mult_right_mono) simp_all
  finally show ?thesis by (simp add: u_def)
qed

text \<open>
  Values of \<^const>\<open>progress_value\<close>, computed by rewriting. The third one shows the rounding:
  \<^verbatim>\<open>int(29 / 100 * 100)\<close> is 28.
\<close>

lemmas float_eval =
  progress_value_def fl64_def float_exponent_def pow2_def round_half_even_def Let_def
  bit_length_0 bit_length_numeral bit_length_Suc_0 floor_rat_numeral ceiling_rat_numeral

lemma progress_value_examples:
  "progress_value 0 1 = 100" "progress_value 1 1 = 200"
  "progress_value 28 100 = 28" "progress_value 200 200 = 100"
  by (simp_all add: float_eval)

lemma progress_value_Suc_examples:
  "progress_value 0 (Suc 0) = 100" "progress_value (Suc 0) (Suc 0) = 200"
  using progress_value_examples(1,2) by simp_all

subsection \<open>The import loop\<close>

lemma import_loop_length:
  "length (fst (import_loop truthy d n jf i its)) = length its"
  by (induction its arbitrary: i) (auto simp: split_beta split: sum.splits)

lemma import_loop_complete:
  "k < length its \<Longrightarrow> status (its ! k) = TranslationComplete
     \<Longrightarrow> fst (import_loop truthy d n jf i its) ! k = its ! k"
proof (induction its arbitrary: i k)
  case Nil
  then show ?case by simp
next
  case (Cons s rest)
  show ?case
  proof (cases k)
    case 0
    with Cons.prems show ?thesis by (auto simp: split_beta)
  next
    case (Suc j)
    with Cons.prems have j: "j < length rest" "status (rest ! j) = TranslationComplete"
      by simp_all
    from Cons.IH [OF j] Suc show ?thesis
      by (auto simp: split_beta split: sum.splits)
  qed
qed

lemma import_esp_string_complete:
  "status s = TranslationComplete \<Longrightarrow> import_esp_string only ts s = Inr s"
  by (simp add: import_esp_string_def)

lemma import_esp_loop_length:
  "length (fst (import_esp_loop only ts its)) = length its"
  by (induction its) (auto simp: split_beta split: sum.splits)

lemma import_esp_loop_complete:
  "k < length its \<Longrightarrow> status (its ! k) = TranslationComplete
     \<Longrightarrow> fst (import_esp_loop only ts its) ! k = its ! k"
proof (induction its arbitrary: k)
  case Nil
  then show ?case by simp
next
  case (Cons s rest)
  show ?case
  proof (cases k)
    case 0
    with Cons.prems show ?thesis
      by (auto simp: import_esp_string_complete split_beta)
  next
    case (Suc j)
    with Cons.prems have j: "j < length rest" "status (rest ! j) = TranslationComplete"
      by simp_all
    from Cons.IH [OF j] Suc show ?thesis
      by (auto simp: split_beta split: sum.splits)
  qed
qed


lemma import_loop_all_missing:
  "(\<forall>s\<in>set its. status s \<noteq> TranslationComplete
        \<longrightarrow> import_string truthy d jf s = Inl KeyError)
     \<Longrightarrow> fst (import_loop truthy d n jf i its) = its"
  by (induction its arbitrary: i) (auto simp: split_beta split: sum.splits)

lemma import_loop_no_abort:
  assumes "n \<noteq> 0"
    and "\<forall>s\<in>set its. status s \<noteq> TranslationComplete
           \<longrightarrow> (\<forall>e. import_string truthy d jf s = Inl e \<longrightarrow> e = KeyError)"
  shows "fst (import_loop truthy d n jf i its) =
           map (\<lambda>s. if status s = TranslationComplete then s
                     else (case import_string truthy d jf s of Inl e \<Rightarrow> s | Inr s' \<Rightarrow> s')) its
         \<and> snd (snd (import_loop truthy d n jf i its)) = None"
  using assms
  by (induction its arbitrary: i) (auto simp: split_beta split: sum.splits)

subsection \<open>What a load leaves in the mapping\<close>

lemma load_json_entries_inv:
  assumes "load_json_entries es d = Inr d'"
    and "\<And>k v. map_of d k = Some v
           \<Longrightarrow> \<exists>kvs x. v = Val (PyDict kvs) \<and> map_of kvs ''original'' = Some x \<and> hashable x = Inr k"
    and "map_of d' k = Some v"
  shows "\<exists>kvs x. v = Val (PyDict kvs) \<and> map_of kvs ''original'' = Some x \<and> hashable x = Inr k"
  using assms
proof (induction es arbitrary: d)
  case Nil
  then show ?case by simp
next
  case (Cons entry es)
  from Cons.prems(1) obtain x key where
    x: "getitem (Val entry) ''original'' = Inr x" and key: "hashable x = Inr key"
    and rest: "load_json_entries es (AList.update key (Val entry) d) = Inr d'"
    by (auto split: sum.splits)
  from x obtain kvs where entry: "entry = PyDict kvs" "map_of kvs ''original'' = Some x"
    by (cases entry) (auto split: option.splits)
  show ?case
  proof (rule Cons.IH [OF rest _ Cons.prems(3)])
    fix k' v'
    assume "map_of (AList.update key (Val entry) d) k' = Some v'"
    then show "\<exists>kvs x. v' = Val (PyDict kvs) \<and> map_of kvs ''original'' = Some x \<and> hashable x = Inr k'"
      using entry key Cons.prems(2) by (auto simp: update_conv' split: if_splits)
  qed
qed

lemma load_pickle_entries_inv:
  assumes "load_pickle_entries es d = Inr d'"
    and "\<And>k v. map_of d k = Some v \<Longrightarrow> \<exists>e. v = Str e \<and> k = KStr (original_string e)"
    and "map_of d' k = Some v"
  shows "\<exists>e. v = Str e \<and> k = KStr (original_string e)"
  using assms
proof (induction es d arbitrary: rule: load_pickle_entries.induct)
  case (1 d)
  then show ?case by simp
next
  case (2 v f d)
  then show ?case by simp
next
  case (3 e f d)
  show ?case
  proof (rule "3.IH" [OF _ _ "3.prems"(3)])
    show "load_pickle_entries f (AList.update (KStr (original_string e)) (Str e) d) = Inr d'"
      using "3.prems"(1) by simp
  next
    fix k' v'
    assume "map_of (AList.update (KStr (original_string e)) (Str e) d) k' = Some v'"
    then show "\<exists>e. v' = Str e \<and> k' = KStr (original_string e)"
      using "3.prems"(2) by (auto simp: update_conv' split: if_splits)
  qed
qed

lemma load_data_json_inv:
  assumes "endswith p ''.json''" and "load_data fs (Some p) = Inr d" and "map_of d k = Some v"
  shows "\<exists>kvs x. v = Val (PyDict kvs) \<and> map_of kvs ''original'' = Some x \<and> hashable x = Inr k"
proof -
  from assms(1,2) obtain f es where "py_iter f = Inr es" "load_json_entries es [] = Inr d"
    by (auto simp: load_data_def split: option.splits sum.splits)
  then show ?thesis
    using load_json_entries_inv [of es "[]" d k v] assms(3) by simp
qed

lemma load_data_pickle_inv:
  assumes "\<not> endswith p ''.json''" and "load_data fs (Some p) = Inr d" and "map_of d k = Some v"
  shows "\<exists>e. v = Str e \<and> k = KStr (original_string e)"
proof -
  from assms(1,2) obtain es where "load_pickle_entries es [] = Inr d"
    by (auto simp: load_data_def split: option.splits sum.splits pickled.splits)
  then show ?thesis
    using load_pickle_entries_inv [of es "[]" d k v] assms(3) by simp
qed


subsection \<open>The session after a run\<close>

lemma hashable_KStr: "hashable x = Inr (KStr t) \<Longrightarrow> x = PyStr t"
  by (cases x) (auto split: if_splits)

lemma run_fst:
  "load_data fs (Some p) = Inr d
     \<Longrightarrow> fst (run truthy fs (Some p) its) =
         fst (import_data truthy d (length d) (endswith p ''.json'') its)"
  by (simp add: run_def split: prod.splits option.splits)

lemma run_items_json:
  assumes "endswith p ''.json''" and "load_data fs (Some p) = Inr d"
  shows "fst (run truthy fs (Some p) its) =
           map (\<lambda>s. if status s = TranslationComplete then s
                     else (case import_string truthy d True s of Inl e \<Rightarrow> s | Inr s' \<Rightarrow> s')) its"
proof (cases "d = []")
  case True
  then have "\<forall>s\<in>set its. status s \<noteq> TranslationComplete
               \<longrightarrow> import_string truthy d True s = Inl KeyError"
    by (simp add: import_string_def)
  then show ?thesis
    using assms True
    by (simp add: run_fst import_data_def import_loop_all_missing import_string_def map_idI)
next
  case False
  have "\<forall>s\<in>set its. status s \<noteq> TranslationComplete
          \<longrightarrow> (\<forall>e. import_string truthy d True s = Inl e \<longrightarrow> e = KeyError)"
  proof (intro ballI impI allI)
    fix s e
    assume e: "import_string truthy d True s = Inl e"
    show "e = KeyError"
    proof (cases "map_of d (KStr (original_string s))")
      case None
      with e show ?thesis by (simp add: import_string_def)
    next
      case (Some entry)
      from load_data_json_inv [OF assms Some] obtain kvs where "entry = Val (PyDict kvs)"
        by blast
      with e Some show ?thesis
        by (auto simp: import_string_def split: option.splits if_splits)
    qed
  qed
  with False show ?thesis
    using assms import_loop_no_abort [of "length d" its truthy d True 0]
    by (simp add: run_fst import_data_def)
qed

lemma run_items_pickle:
  assumes "\<not> endswith p ''.json''" and "load_data fs (Some p) = Inr d"
  shows "fst (run truthy fs (Some p) its) =
           map (\<lambda>s. if status s = TranslationComplete then s
                     else (case import_string truthy d False s of Inl e \<Rightarrow> s | Inr s' \<Rightarrow> s')) its"
proof (cases "d = []")
  case True
  then have "\<forall>s\<in>set its. status s \<noteq> TranslationComplete
               \<longrightarrow> import_string truthy d False s = Inl KeyError"
    by (simp add: import_string_def)
  then show ?thesis
    using assms True
    by (simp add: run_fst import_data_def import_loop_all_missing import_string_def map_idI)
next
  case False
  have "\<forall>s\<in>set its. status s \<noteq> TranslationComplete
          \<longrightarrow> (\<forall>e. import_string truthy d False s = Inl e \<longrightarrow> e = KeyError)"
  proof (intro ballI impI allI)
    fix s e
    assume e: "import_string truthy d False s = Inl e"
    show "e = KeyError"
    proof (cases "map_of d (KStr (original_string s))")
      case None
      with e show ?thesis by (simp add: import_string_def)
    next
      case (Some entry)
      from load_data_pickle_inv [OF assms Some] obtain x where "entry = Str x"
        by blast
      with e Some show ?thesis
        by (auto simp: import_string_def split: option.splits if_splits)
    qed
  qed
  with False show ?thesis
    using assms import_loop_no_abort [of "length d" its truthy d False 0]
    by (simp add: run_fst import_data_def)
qed

subsection \<open>Finished strings\<close>

text \<open>
  C1. A string whose status is \<^verbatim>\<open>TranslationComplete\<close> is left as it is, field for field
  (so its \<^verbatim>\<open>translated_string\<close> and \<^verbatim>\<open>status\<close> too), by \<^verbatim>\<open>Worker.import_data\<close>, whatever the
  mapping, the total and the format, and by \<^verbatim>\<open>EditorAddon.import_esp\<close>, whatever the plugin
  and the mode.
\<close>

theorem complete_strings_untouched:
  assumes "k < length its" and "status (its ! k) = TranslationComplete"
  shows "fst (import_data truthy d total_entries json_format its) ! k = its ! k
         \<and> fst (import_esp selected only_edid its) ! k = its ! k"
  using assms
  by (simp add: import_data_def import_loop_complete import_esp_def import_esp_loop_complete
      split: option.splits)

theorem complete_strings_untouched_witness:
  "(0::nat) < length [foo_string\<lparr>status := TranslationComplete\<rparr>]
   \<and> status ([foo_string\<lparr>status := TranslationComplete\<rparr>] ! 0) = TranslationComplete
   \<and> fst (import_data (\<lambda>e. True)
            [(KStr ''foo'', Val (PyDict [(''original'', PyStr ''foo''), (''string'', PyStr ''bar'')]))]
            1 True [foo_string\<lparr>status := TranslationComplete\<rparr>]) ! 0
       = foo_string\<lparr>status := TranslationComplete\<rparr>
   \<and> fst (import_esp (Some [foo_string\<lparr>original_string := ''bar''\<rparr>]) False
            [foo_string\<lparr>status := TranslationComplete\<rparr>]) ! 0
       = foo_string\<lparr>status := TranslationComplete\<rparr>"
  using complete_strings_untouched [of 0 "[foo_string\<lparr>status := TranslationComplete\<rparr>]"
      "\<lambda>e. True"
      "[(KStr ''foo'', Val (PyDict [(''original'', PyStr ''foo''), (''string'', PyStr ''bar'')]))]"
      1 True "Some [foo_string\<lparr>original_string := ''bar''\<rparr>]" False]
  by simp


subsection \<open>Entries of a JSON source\<close>

text \<open>
  C2, as amended. The claim compares the entry's declared original text with
  \<^verbatim>\<open>original_string\<close>; the code compares the entry's translation (\<^verbatim>\<open>'string'\<close>). An entry
  found under a string's \<^verbatim>\<open>original_string\<close> always declares that very text as its
  \<^verbatim>\<open>'original'\<close>. For a string that is not complete and has such an entry, after \<^verbatim>\<open>run\<close> on a
  \<^verbatim>\<open>.json\<close> path: if the entry's translation differs from \<^verbatim>\<open>original_string\<close>, the string has
  that translation and the status \<^verbatim>\<open>TranslationIncomplete\<close>; if the translation equals
  \<^verbatim>\<open>original_string\<close>, or the entry has no \<^verbatim>\<open>'string'\<close>, the string is unchanged.
\<close>

theorem json_entry_reconciled:
  assumes "endswith p ''.json''"
    and "load_data fs (Some p) = Inr d"
    and "k < length its"
    and "status (its ! k) \<noteq> TranslationComplete"
    and "map_of d (KStr (original_string (its ! k))) = Some entry"
  shows "getitem entry ''original'' = Inr (PyStr (original_string (its ! k)))
         \<and> fst (run truthy fs (Some p) its) ! k =
             (case getitem entry ''string'' of
                Inl e \<Rightarrow> its ! k
              | Inr v \<Rightarrow>
                  if v \<noteq> PyStr (original_string (its ! k))
                  then (its ! k)\<lparr>translated_string := v, status := TranslationIncomplete\<rparr>
                  else its ! k)"
proof -
  from load_data_json_inv [OF assms(1,2,5)] obtain kvs x where
    entry: "entry = Val (PyDict kvs)" and x: "map_of kvs ''original'' = Some x"
    and h: "hashable x = Inr (KStr (original_string (its ! k)))"
    by blast
  from h have "x = PyStr (original_string (its ! k))"
    by (rule hashable_KStr)
  with entry x have orig: "getitem entry ''original'' = Inr (PyStr (original_string (its ! k)))"
    by simp
  have "fst (run truthy fs (Some p) its) ! k =
          (case import_string truthy d True (its ! k) of Inl e \<Rightarrow> its ! k | Inr s' \<Rightarrow> s')"
    using assms(3,4) by (simp add: run_items_json [OF assms(1,2)])
  also have "\<dots> = (case getitem entry ''string'' of
                Inl e \<Rightarrow> its ! k
              | Inr v \<Rightarrow>
                  if v \<noteq> PyStr (original_string (its ! k))
                  then (its ! k)\<lparr>translated_string := v, status := TranslationIncomplete\<rparr>
                  else its ! k)"
    using assms(5) by (simp add: import_string_def split: sum.splits)
  finally show ?thesis
    using orig by simp
qed

theorem json_entry_reconciled_witness:
  "endswith ''export.json'' ''.json''
   \<and> load_data example_fs (Some ''export.json'') =
        Inr [(KStr ''foo'', Val (PyDict [(''original'', PyStr ''foo''), (''string'', PyStr ''bar'')]))]
   \<and> (0::nat) < length [foo_string]
   \<and> status ([foo_string] ! 0) \<noteq> TranslationComplete
   \<and> map_of [(KStr ''foo'', Val (PyDict [(''original'', PyStr ''foo''), (''string'', PyStr ''bar'')]))]
        (KStr (original_string ([foo_string] ! 0)))
       = Some (Val (PyDict [(''original'', PyStr ''foo''), (''string'', PyStr ''bar'')]))
   \<and> fst (run (\<lambda>e. True) example_fs (Some ''export.json'') [foo_string]) ! 0 =
        foo_string\<lparr>translated_string := PyStr ''bar'', status := TranslationIncomplete\<rparr>"
  using json_entry_reconciled [of "''export.json''" example_fs
      "[(KStr ''foo'', Val (PyDict [(''original'', PyStr ''foo''), (''string'', PyStr ''bar'')]))]"
      0 "[foo_string]"
      "Val (PyDict [(''original'', PyStr ''foo''), (''string'', PyStr ''bar'')])" "\<lambda>e. True"]
  by (simp add: endswith_def load_data_def example_fs_def foo_string_def)

text \<open>
  The claim as stated fails on the spec's own scenario: the entry's declared original
  text equals the string's, and the string is changed all the same.
\<close>

theorem json_same_original_counterexample:
  "map_of [(KStr ''foo'', Val (PyDict [(''original'', PyStr ''foo''), (''string'', PyStr ''bar'')]))]
        (KStr (original_string foo_string))
       = Some (Val (PyDict [(''original'', PyStr ''foo''), (''string'', PyStr ''bar'')]))
   \<and> getitem (Val (PyDict [(''original'', PyStr ''foo''), (''string'', PyStr ''bar'')])) ''original''
       = Inr (PyStr (original_string foo_string))
   \<and> status foo_string \<noteq> TranslationComplete
   \<and> run (\<lambda>e. True) example_fs (Some ''export.json'') [foo_string]
       = ([foo_string\<lparr>translated_string := PyStr ''bar'', status := TranslationIncomplete\<rparr>],
          [Progress 100, Result ''DB_IMPORTED'', Finished])
   \<and> foo_string\<lparr>translated_string := PyStr ''bar'', status := TranslationIncomplete\<rparr> \<noteq> foo_string"
  by (simp add: run_def load_data_def example_fs_def endswith_def import_data_def
      import_string_def foo_string_def progress_value_Suc_examples)

subsection \<open>Entries of a legacy source\<close>

text \<open>
  C7. For a string that is not complete and whose \<^verbatim>\<open>original_string\<close> is a key of the mapping
  loaded from a legacy (pickled) source, with an entry that is truthy: the entry is a
  \<^verbatim>\<open>String\<close>, and after \<^verbatim>\<open>run\<close> the string's \<^verbatim>\<open>translated_string\<close> and \<^verbatim>\<open>status\<close> are exactly the
  entry's, its other fields being as before.
\<close>

theorem legacy_entry_applied:
  assumes "\<not> endswith p ''.json''"
    and "load_data fs (Some p) = Inr d"
    and "k < length its"
    and "status (its ! k) \<noteq> TranslationComplete"
    and "map_of d (KStr (original_string (its ! k))) = Some entry"
    and "obj_bool truthy entry"
  shows "\<exists>e. entry = Str e
           \<and> fst (run truthy fs (Some p) its) ! k =
               (its ! k)\<lparr>translated_string := translated_string e, status := status e\<rparr>"
proof -
  from load_data_pickle_inv [OF assms(1,2,5)] obtain e where entry: "entry = Str e"
    by blast
  have "fst (run truthy fs (Some p) its) ! k =
          (case import_string truthy d False (its ! k) of Inl e \<Rightarrow> its ! k | Inr s' \<Rightarrow> s')"
    using assms(3,4) by (simp add: run_items_pickle [OF assms(1,2)])
  also have "\<dots> = (its ! k)\<lparr>translated_string := translated_string e, status := status e\<rparr>"
    using assms(5,6) entry by (simp add: import_string_def)
  finally show ?thesis
    using entry by simp
qed

theorem legacy_entry_applied_witness:
  "\<not> endswith ''legacy.ats'' ''.json''
   \<and> load_data example_fs (Some ''legacy.ats'') =
        Inr [(KStr ''foo'', Str (foo_string\<lparr>translated_string := PyStr ''bar'',
                                              status := TranslationComplete\<rparr>))]
   \<and> (0::nat) < length [foo_string]
   \<and> status ([foo_string] ! 0) \<noteq> TranslationComplete
   \<and> map_of [(KStr ''foo'', Str (foo_string\<lparr>translated_string := PyStr ''bar'',
                                              status := TranslationComplete\<rparr>))]
        (KStr (original_string ([foo_string] ! 0)))
       = Some (Str (foo_string\<lparr>translated_string := PyStr ''bar'', status := TranslationComplete\<rparr>))
   \<and> obj_bool (\<lambda>e. True)
        (Str (foo_string\<lparr>translated_string := PyStr ''bar'', status := TranslationComplete\<rparr>))
   \<and> fst (run (\<lambda>e. True) example_fs (Some ''legacy.ats'') [foo_string]) ! 0 =
        foo_string\<lparr>translated_string := PyStr ''bar'', status := TranslationComplete\<rparr>"
  using legacy_entry_applied [of "''legacy.ats''" example_fs
      "[(KStr ''foo'', Str (foo_string\<lparr>translated_string := PyStr ''bar'',
                                              status := TranslationComplete\<rparr>))]"
      0 "[foo_string]"
      "Str (foo_string\<lparr>translated_string := PyStr ''bar'', status := TranslationComplete\<rparr>)"
      "\<lambda>e. True"]
  by (simp add: endswith_def load_data_def example_fs_def foo_string_def)

subsection \<open>Failures of the load\<close>





subsection \<open>Progress values\<close>

text \<open>
  What \<^verbatim>\<open>run\<close> does with a source of no entries, and the progress values of a loop that
  runs to its end: one for each string that is complete or has an entry, the
  \<open>j\<close>-th being \<^const>\<open>progress_value\<close> of \<open>j\<close> and the number of entries.
\<close>

lemma import_loop_empty:
  "import_loop truthy [] 0 json_format i its =
     (its, [], if \<exists>s\<in>set its. status s = TranslationComplete
               then Some ZeroDivisionError else None)"
  by (induction its) (auto simp: import_string_def)

lemma run_empty_source:
  assumes "load_data fs path = Inr []"
  shows "run truthy fs path its =
           (its, if \<exists>s\<in>set its. status s = TranslationComplete
                 then [Error ZeroDivisionError, Finished]
                 else [Result ''DB_IMPORTED'', Finished])"
proof (cases path)
  case None
  with assms show ?thesis by (simp add: load_data_def)
next
  case (Some p)
  with assms show ?thesis
    by (simp add: run_def import_data_def import_loop_empty)
qed

lemma import_loop_progress:
  assumes "n \<noteq> 0"
    and "\<forall>s\<in>set its. status s \<noteq> TranslationComplete
           \<longrightarrow> (\<forall>e. import_string truthy d jf s = Inl e \<longrightarrow> e = KeyError)"
  shows "fst (snd (import_loop truthy d n jf i its)) =
           map (\<lambda>j. progress_value j n)
             [i ..< i + length (filter (\<lambda>s. status s = TranslationComplete
                                  \<or> import_string truthy d jf s \<noteq> Inl KeyError) its)]"
  using assms
proof (induction its arbitrary: i)
  case Nil
  then show ?case by simp
next
  case (Cons s rest)
  from Cons.prems have rest: "\<forall>s\<in>set rest. status s \<noteq> TranslationComplete
           \<longrightarrow> (\<forall>e. import_string truthy d jf s = Inl e \<longrightarrow> e = KeyError)"
    by simp
  note ih = Cons.IH [OF Cons.prems(1) rest]
  show ?case
  proof (cases "status s = TranslationComplete \<or> import_string truthy d jf s \<noteq> Inl KeyError")
    case True
    have "fst (snd (import_loop truthy d n jf i (s # rest))) =
                 progress_value i n # fst (snd (import_loop truthy d n jf (i + 1) rest))"
      using True Cons.prems by (auto simp: split_beta split: sum.splits)
    moreover have "length (filter (\<lambda>s. status s = TranslationComplete
                       \<or> import_string truthy d jf s \<noteq> Inl KeyError) (s # rest)) =
                   Suc (length (filter (\<lambda>s. status s = TranslationComplete
                       \<or> import_string truthy d jf s \<noteq> Inl KeyError) rest))"
      using True by simp
    moreover have "[i ..< i + Suc m] = i # [i + 1 ..< (i + 1) + m]" for m
      by (simp add: upt_conv_Cons)
    ultimately show ?thesis
      by (simp only: ih [of "i + 1"] list.map)
  next
    case False
    then have "fst (snd (import_loop truthy d n jf i (s # rest))) =
                 fst (snd (import_loop truthy d n jf i rest))"
      by (auto simp: split_beta)
    with False show ?thesis
      by (simp add: ih [of i])
  qed
qed

text \<open>
  C3. The divisor of the progress value is the number of entries of the source, not the
  number of strings of the session: with one entry and two strings that reach the
  division, the values emitted are 100 and then 200.
\<close>

theorem progress_above_100:
  "run (\<lambda>e. True) example_fs (Some ''export.json'')
     [foo_string\<lparr>status := TranslationComplete\<rparr>, foo_string\<lparr>status := TranslationComplete\<rparr>]
   = ([foo_string\<lparr>status := TranslationComplete\<rparr>, foo_string\<lparr>status := TranslationComplete\<rparr>],
      [Progress 100, Progress 200, Result ''DB_IMPORTED'', Finished])"
  by (simp add: run_def load_data_def example_fs_def endswith_def import_data_def
      progress_value_Suc_examples)

text \<open>
  C4. An empty source gives a zero total, and nothing treats it apart: the first
  complete string of the session reaches the division, which raises
  \<^verbatim>\<open>ZeroDivisionError\<close>, and the task ends with the error signal.
\<close>

theorem empty_source_raises:
  "load_data example_fs (Some ''empty.json'') = Inr []
   \<and> run (\<lambda>e. True) example_fs (Some ''empty.json'') [foo_string\<lparr>status := TranslationComplete\<rparr>]
       = ([foo_string\<lparr>status := TranslationComplete\<rparr>], [Error ZeroDivisionError, Finished])"
  by (simp add: run_def load_data_def example_fs_def endswith_def import_data_def)

subsection \<open>Export and import again\<close>

lemma endswith_append: "endswith (path @ suffix) suffix"
  by (simp add: endswith_def)

lemma load_json_entries_export:
  "\<exists>d'. load_json_entries (export_data False i its) d = Inr d'
     \<and> (\<forall>t. (filter (\<lambda>s. status s \<noteq> TranslationComplete \<and> original_string s = t) its = []
            \<longrightarrow> map_of d' (KStr t) = map_of d (KStr t))
          \<and> (filter (\<lambda>s. status s \<noteq> TranslationComplete \<and> original_string s = t) its \<noteq> []
               \<longrightarrow> (\<exists>kvs. map_of d' (KStr t) = Some (Val (PyDict kvs))
                      \<and> map_of kvs ''string'' =
                          Some (translated_string
                                 (last (filter (\<lambda>s. status s \<noteq> TranslationComplete
                                                    \<and> original_string s = t) its))))))"
proof (induction its arbitrary: i d)
  case Nil
  then show ?case by simp
next
  case (Cons s rest)
  show ?case
  proof (cases "status s = TranslationComplete")
    case True
    with Cons.IH [of "i + 1" d] show ?thesis by simp
  next
    case False
    define e where "e = PyDict [(''index'', PyInt (int i)), (''type'', opt_str (type s)),
                    (''original'', PyStr (original_string s)),
                    (''string'', translated_string s)]"
    define d0 where "d0 = AList.update (KStr (original_string s)) (Val e) d"
    from Cons.IH [of "i + 1" d0] obtain d' where
      ld: "load_json_entries (export_data False (i + 1) rest) d0 = Inr d'"
      and lk: "\<And>t. filter (\<lambda>s. status s \<noteq> TranslationComplete \<and> original_string s = t) rest = []
            \<Longrightarrow> map_of d' (KStr t) = map_of d0 (KStr t)"
      and lk2: "\<And>t. filter (\<lambda>s. status s \<noteq> TranslationComplete \<and> original_string s = t) rest \<noteq> []
               \<Longrightarrow> (\<exists>kvs. map_of d' (KStr t) = Some (Val (PyDict kvs))
                      \<and> map_of kvs ''string'' =
                          Some (translated_string
                                 (last (filter (\<lambda>s. status s \<noteq> TranslationComplete
                                                    \<and> original_string s = t) rest))))"
      by blast
    have step: "load_json_entries (export_data False i (s # rest)) d = Inr d'"
      using False ld by (simp add: e_def d0_def)
    have "\<forall>t. (filter (\<lambda>s. status s \<noteq> TranslationComplete \<and> original_string s = t) (s # rest) = []
            \<longrightarrow> map_of d' (KStr t) = map_of d (KStr t))
          \<and> (filter (\<lambda>s. status s \<noteq> TranslationComplete \<and> original_string s = t) (s # rest) \<noteq> []
               \<longrightarrow> (\<exists>kvs. map_of d' (KStr t) = Some (Val (PyDict kvs))
                      \<and> map_of kvs ''string'' =
                          Some (translated_string
                                 (last (filter (\<lambda>s. status s \<noteq> TranslationComplete
                                                    \<and> original_string s = t) (s # rest))))))"
    proof
      fix t
      show "(filter (\<lambda>s. status s \<noteq> TranslationComplete \<and> original_string s = t) (s # rest) = []
            \<longrightarrow> map_of d' (KStr t) = map_of d (KStr t))
          \<and> (filter (\<lambda>s. status s \<noteq> TranslationComplete \<and> original_string s = t) (s # rest) \<noteq> []
               \<longrightarrow> (\<exists>kvs. map_of d' (KStr t) = Some (Val (PyDict kvs))
                      \<and> map_of kvs ''string'' =
                          Some (translated_string
                                 (last (filter (\<lambda>s. status s \<noteq> TranslationComplete
                                                    \<and> original_string s = t) (s # rest))))))"
      proof (cases "filter (\<lambda>s. status s \<noteq> TranslationComplete \<and> original_string s = t) rest = []")
        case empty: True
        show ?thesis
        proof (cases "original_string s = t")
          case True
          from lk [OF empty] have "map_of d' (KStr t) = map_of d0 (KStr t)" by simp
          also have "\<dots> = Some (Val e)" using True by (simp add: d0_def update_conv')
          finally have "map_of d' (KStr t) = Some (Val e)" .
          moreover have "map_of [(''index'', PyInt (int i)), (''type'', opt_str (type s)),
                    (''original'', PyStr (original_string s)),
                    (''string'', translated_string s)] ''string'' = Some (translated_string s)"
            by simp
          ultimately show ?thesis
            using False True empty by (simp add: e_def)
        next
          case neq: False
          from lk [OF empty] have "map_of d' (KStr t) = map_of d0 (KStr t)" by simp
          also have "\<dots> = map_of d (KStr t)" using neq by (simp add: d0_def update_conv')
          finally show ?thesis using neq empty by simp
        qed
      next
        case nonempty: False
        from lk2 [OF nonempty] show ?thesis
          using nonempty by auto
      qed
    qed
    with step show ?thesis by blast
  qed
qed


lemma load_data_export_json:
  "\<exists>d. load_data (export_json False path its fs) (Some (path @ ''.json'')) = Inr d
     \<and> (\<forall>s\<in>set its. status s \<noteq> TranslationComplete
           \<longrightarrow> (\<exists>kvs. map_of d (KStr (original_string s)) = Some (Val (PyDict kvs))
                  \<and> map_of kvs ''string'' =
                      Some (translated_string
                             (last (filter (\<lambda>r. status r \<noteq> TranslationComplete
                                      \<and> original_string r = original_string s) its)))))"
proof -
  from load_json_entries_export [of 0 its "[]"] obtain d where
    ld: "load_json_entries (export_data False 0 its) [] = Inr d"
    and lk: "\<And>t. filter (\<lambda>s. status s \<noteq> TranslationComplete \<and> original_string s = t) its \<noteq> []
               \<Longrightarrow> (\<exists>kvs. map_of d (KStr t) = Some (Val (PyDict kvs))
                      \<and> map_of kvs ''string'' =
                          Some (translated_string
                                 (last (filter (\<lambda>s. status s \<noteq> TranslationComplete
                                                    \<and> original_string s = t) its))))"
    by blast
  have "load_data (export_json False path its fs) (Some (path @ ''.json'')) = Inr d"
    using ld by (simp add: load_data_def export_json_def endswith_append)
  moreover have "\<forall>s\<in>set its. status s \<noteq> TranslationComplete
           \<longrightarrow> (\<exists>kvs. map_of d (KStr (original_string s)) = Some (Val (PyDict kvs))
                  \<and> map_of kvs ''string'' =
                      Some (translated_string
                             (last (filter (\<lambda>r. status r \<noteq> TranslationComplete
                                      \<and> original_string r = original_string s) its))))"
  proof (intro ballI impI)
    fix s
    assume "s \<in> set its" "status s \<noteq> TranslationComplete"
    then have "filter (\<lambda>r. status r \<noteq> TranslationComplete
                 \<and> original_string r = original_string s) its \<noteq> []"
      by (auto simp: filter_empty_conv)
    from lk [OF this] show "\<exists>kvs. map_of d (KStr (original_string s)) = Some (Val (PyDict kvs))
                  \<and> map_of kvs ''string'' =
                      Some (translated_string
                             (last (filter (\<lambda>r. status r \<noteq> TranslationComplete
                                      \<and> original_string r = original_string s) its)))" .
  qed
  ultimately show ?thesis by blast
qed

text \<open>
  C5, as amended. Export the strings that are not complete with \<^verbatim>\<open>export_json\<close> and import
  the file written through \<^verbatim>\<open>run\<close>, the session being the same. A complete string is
  unchanged. For any other string, take the translation exported last under its
  \<^verbatim>\<open>original_string\<close> (its own, unless a later string that is not complete has the same
  original text): if it differs from the \<^verbatim>\<open>original_string\<close>, the string gets it as
  \<^verbatim>\<open>translated_string\<close> and the status \<^verbatim>\<open>TranslationIncomplete\<close>; if not, the string is unchanged.
  So a string whose status is \<^verbatim>\<open>TranslationComplete\<close> or \<^verbatim>\<open>TranslationIncomplete\<close> keeps its
  status, while an untranslated string may become \<^verbatim>\<open>TranslationIncomplete\<close>.
\<close>

theorem export_then_import:
  assumes "k < length its"
  shows "fst (run truthy (export_json False path its fs) (Some (path @ ''.json'')) its) ! k =
           (if status (its ! k) = TranslationComplete then its ! k
            else
              (let exported =
                     translated_string
                       (last (filter (\<lambda>r. status r \<noteq> TranslationComplete
                                \<and> original_string r = original_string (its ! k)) its))
               in if exported \<noteq> PyStr (original_string (its ! k))
                  then (its ! k)\<lparr>translated_string := exported, status := TranslationIncomplete\<rparr>
                  else its ! k))
         \<and> (status (its ! k) \<noteq> Untranslated
              \<longrightarrow> status (fst (run truthy (export_json False path its fs)
                                 (Some (path @ ''.json'')) its) ! k)
                   = status (its ! k))"
proof -
  from load_data_export_json [of path its fs] obtain d where
    ld: "load_data (export_json False path its fs) (Some (path @ ''.json'')) = Inr d"
    and lk: "\<And>s. s \<in> set its \<Longrightarrow> status s \<noteq> TranslationComplete
           \<Longrightarrow> (\<exists>kvs. map_of d (KStr (original_string s)) = Some (Val (PyDict kvs))
                  \<and> map_of kvs ''string'' =
                      Some (translated_string
                             (last (filter (\<lambda>r. status r \<noteq> TranslationComplete
                                      \<and> original_string r = original_string s) its))))"
    by blast
  have res: "fst (run truthy (export_json False path its fs) (Some (path @ ''.json'')) its) ! k =
          (if status (its ! k) = TranslationComplete then its ! k
           else (case import_string truthy d True (its ! k) of Inl e \<Rightarrow> its ! k | Inr s' \<Rightarrow> s'))"
    using assms by (simp add: run_items_json [OF endswith_append ld])
  have first: "fst (run truthy (export_json False path its fs) (Some (path @ ''.json'')) its) ! k =
           (if status (its ! k) = TranslationComplete then its ! k
            else
              (let exported =
                     translated_string
                       (last (filter (\<lambda>r. status r \<noteq> TranslationComplete
                                \<and> original_string r = original_string (its ! k)) its))
               in if exported \<noteq> PyStr (original_string (its ! k))
                  then (its ! k)\<lparr>translated_string := exported, status := TranslationIncomplete\<rparr>
                  else its ! k))"
  proof (cases "status (its ! k) = TranslationComplete")
    case True
    with res show ?thesis by simp
  next
    case False
    from assms have "its ! k \<in> set its" by simp
    from lk [OF this False] obtain kvs where
      "map_of d (KStr (original_string (its ! k))) = Some (Val (PyDict kvs))"
      "map_of kvs ''string'' =
         Some (translated_string
                (last (filter (\<lambda>r. status r \<noteq> TranslationComplete
                         \<and> original_string r = original_string (its ! k)) its)))"
      by blast
    with res False show ?thesis
      by (simp add: import_string_def Let_def)
  qed
  moreover have "status (its ! k) \<noteq> Untranslated
              \<longrightarrow> status (fst (run truthy (export_json False path its fs)
                                 (Some (path @ ''.json'')) its) ! k)
                   = status (its ! k)"
    unfolding first by (cases "status (its ! k)") (simp_all add: Let_def)
  ultimately show ?thesis by blast
qed

theorem export_then_import_witness:
  "(0::nat) < length [foo_string\<lparr>translated_string := PyStr ''bar'', status := TranslationIncomplete\<rparr>]
   \<and> status ([foo_string\<lparr>translated_string := PyStr ''bar'', status := TranslationIncomplete\<rparr>] ! 0)
       \<noteq> Untranslated
   \<and> fst (run (\<lambda>e. True)
            (export_json False ''out''
               [foo_string\<lparr>translated_string := PyStr ''bar'', status := TranslationIncomplete\<rparr>]
               example_fs)
            (Some (''out'' @ ''.json''))
            [foo_string\<lparr>translated_string := PyStr ''bar'', status := TranslationIncomplete\<rparr>]) ! 0
       = foo_string\<lparr>translated_string := PyStr ''bar'', status := TranslationIncomplete\<rparr>"
  using export_then_import [of 0
      "[foo_string\<lparr>translated_string := PyStr ''bar'', status := TranslationIncomplete\<rparr>]"
      "\<lambda>e. True" "''out''" example_fs]
  by (simp add: foo_string_def Let_def)

text \<open>
  The claim as stated fails: an untranslated string without a translation is exported
  with \<^verbatim>\<open>"string": null\<close>, which differs from its original text, so the import makes it
  \<^verbatim>\<open>TranslationIncomplete\<close>.
\<close>

theorem export_then_import_counterexample:
  "status foo_string = Untranslated
   \<and> translated_string foo_string = PyNone
   \<and> export_data False 0 [foo_string] =
       [PyDict [(''index'', PyInt 0), (''type'', PyStr ''BOOK''),
                (''original'', PyStr ''foo''), (''string'', PyNone)]]
   \<and> fst (run (\<lambda>e. True) (export_json False ''out'' [foo_string] example_fs)
            (Some ''out.json'') [foo_string])
       = [foo_string\<lparr>status := TranslationIncomplete\<rparr>]
   \<and> status (foo_string\<lparr>status := TranslationIncomplete\<rparr>) \<noteq> status foo_string"
  by (simp add: run_def load_data_def export_json_def opt_str_def endswith_def import_data_def
      import_string_def foo_string_def)

subsection \<open>The second pass over the session\<close>

lemma str_contains_iff: "str_contains t sub \<longleftrightarrow> (\<exists>pre post. t = pre @ sub @ post)"
proof (induction t)
  case Nil
  then show ?case by auto
next
  case (Cons c cs)
  show ?case
  proof
    assume "str_contains (c # cs) sub"
    then consider "take (length sub) (c # cs) = sub" | "str_contains cs sub"
      by auto
    then show "\<exists>pre post. c # cs = pre @ sub @ post"
    proof cases
      case 1
      then have "c # cs = [] @ sub @ drop (length sub) (c # cs)"
        by (metis append_Nil append_take_drop_id)
      then show ?thesis by blast
    next
      case 2
      with Cons.IH obtain pre post where "cs = pre @ sub @ post" by blast
      then have "c # cs = (c # pre) @ sub @ post" by simp
      then show ?thesis by blast
    qed
  next
    assume "\<exists>pre post. c # cs = pre @ sub @ post"
    then obtain pre post where eq: "c # cs = pre @ sub @ post" by blast
    show "str_contains (c # cs) sub"
    proof (cases pre)
      case Nil
      with eq have "take (length sub) (c # cs) = sub" by simp
      then show ?thesis by simp
    next
      case (Cons a pre')
      with eq have "cs = pre' @ sub @ post" by simp
      with Cons.IH have "str_contains cs sub" by blast
      then show ?thesis by simp
    qed
  qed
qed

lemma update_gui_with_data_result:
  "update_gui_with_data d its =
     (its, if \<exists>s\<in>set its. status s \<noteq> TranslationComplete \<and> str_contains d (original_string s)
           then Some TypeError else None)"
  by (induction its) (auto simp: split_beta)

lemma run_result_payload:
  "Result payload \<in> set (snd (run truthy fs path its)) \<Longrightarrow> payload = ''DB_IMPORTED''"
  by (auto simp: run_def split: sum.splits option.splits prod.splits)

lemma run_signals_cases:
  "(\<exists>ps e. snd (run truthy fs path its) = map Progress ps @ [Error e, Finished])
   \<or> (\<exists>ps. snd (run truthy fs path its) = map Progress ps @ [Result ''DB_IMPORTED'', Finished])"
proof (cases "load_data fs path")
  case (Inl e)
  then have "snd (run truthy fs path its) = map Progress [] @ [Error e, Finished]"
    by (simp add: run_def)
  then show ?thesis by blast
next
  case (Inr d)
  show ?thesis
  proof (cases path)
    case None
    with Inr have "snd (run truthy fs path its) = map Progress [] @ [Error AttributeError, Finished]"
      by (simp add: run_def)
    then show ?thesis by blast
  next
    case (Some p)
    obtain its' ps err where r: "import_data truthy d (length d) (endswith p ''.json'') its = (its', ps, err)"
      by (cases "import_data truthy d (length d) (endswith p ''.json'') its") auto
    show ?thesis
    proof (cases err)
      case None
      with Inr Some r have "snd (run truthy fs path its) = map Progress ps @ [Result ''DB_IMPORTED'', Finished]"
        by (simp add: run_def)
      then show ?thesis by blast
    next
      case (Some e)
      with Inr \<open>path = Some p\<close> r have "snd (run truthy fs path its) = map Progress ps @ [Error e, Finished]"
        by (simp add: run_def)
      then show ?thesis by blast
    qed
  qed
qed

lemma deliver_progress: "deliver (map Progress ps @ sigs) its = deliver sigs its"
  by (induction ps) simp_all

lemma load_from_db_items:
  "fst (load_from_db truthy fs path its) = fst (run truthy fs path its)"
proof -
  obtain its' sigs where r: "run truthy fs path its = (its', sigs)"
    by (cases "run truthy fs path its") auto
  from run_signals_cases [of truthy fs path its] r
  have "fst (deliver sigs its') = its'"
    by (auto simp: deliver_progress update_gui_with_data_result)
  with r show ?thesis
    by (simp add: load_from_db_def split_beta)
qed

lemma run_result_iff:
  "Result ''DB_IMPORTED'' \<in> set (snd (run truthy fs path its)) \<longleftrightarrow>
     (\<exists>p d. path = Some p \<and> load_data fs path = Inr d
        \<and> snd (snd (import_data truthy d (length d) (endswith p ''.json'') its)) = None)"
proof (cases "load_data fs path")
  case (Inl e)
  then show ?thesis by (simp add: run_def)
next
  case (Inr d)
  show ?thesis
  proof (cases path)
    case None
    with Inr show ?thesis by (simp add: run_def)
  next
    case (Some p)
    obtain its' ps err where
      r: "import_data truthy d (length d) (endswith p ''.json'') its = (its', ps, err)"
      by (cases "import_data truthy d (length d) (endswith p ''.json'') its") auto
    with Inr Some show ?thesis
      by (cases err) (auto simp: run_def)
  qed
qed

lemma deliver_run:
  "deliver (snd (run truthy fs path its)) its' =
     (its',
      if Result ''DB_IMPORTED'' \<in> set (snd (run truthy fs path its))
         \<and> (\<exists>s\<in>set its'. status s \<noteq> TranslationComplete
               \<and> str_contains ''DB_IMPORTED'' (original_string s))
      then [TypeError] else [])"
proof -
  from run_signals_cases [of truthy fs path its]
  consider ps e where "snd (run truthy fs path its) = map Progress ps @ [Error e, Finished]"
    | ps where "snd (run truthy fs path its) = map Progress ps @ [Result ''DB_IMPORTED'', Finished]"
    by blast
  then show ?thesis
  proof cases
    case 1
    then show ?thesis
      by (auto simp: deliver_progress)
  next
    case 2
    then show ?thesis
      by (simp add: deliver_progress update_gui_with_data_result)
  qed
qed

text \<open>
  C9. \<^verbatim>\<open>run\<close> emits the result signal exactly when the load and the import loop end without
  an exception, and its payload is always the string \<^verbatim>\<open>'DB_IMPORTED'\<close>. In \<^verbatim>\<open>load_from_db\<close> the
  signal reaches the slot \<^verbatim>\<open>update_gui_with_data\<close>, which runs over the session \<^verbatim>\<open>run\<close> left
  and changes no string of it. The slot raises \<^verbatim>\<open>TypeError\<close>, which its handler for
  \<^verbatim>\<open>KeyError\<close> does not catch, exactly when some string that is not complete has an
  \<^verbatim>\<open>original_string\<close> occurring inside \<^verbatim>\<open>'DB_IMPORTED'\<close>, and returns normally otherwise. So
  \<^verbatim>\<open>load_from_db\<close> gives the session and the signals of \<^verbatim>\<open>run\<close>, and that one \<^verbatim>\<open>TypeError\<close> in
  the first case.
\<close>

theorem result_slot_on_constant:
  "load_from_db truthy fs path its =
     (fst (run truthy fs path its), snd (run truthy fs path its),
      if Result ''DB_IMPORTED'' \<in> set (snd (run truthy fs path its))
         \<and> (\<exists>s\<in>set (fst (run truthy fs path its)). status s \<noteq> TranslationComplete
               \<and> (\<exists>pre post. ''DB_IMPORTED'' = pre @ original_string s @ post))
      then [TypeError] else [])
   \<and> (Result ''DB_IMPORTED'' \<in> set (snd (run truthy fs path its)) \<longleftrightarrow>
        (\<exists>p d. path = Some p \<and> load_data fs path = Inr d
           \<and> snd (snd (import_data truthy d (length d) (endswith p ''.json'') its)) = None))
   \<and> (\<forall>payload. Result payload \<in> set (snd (run truthy fs path its))
        \<longrightarrow> payload = ''DB_IMPORTED'')
   \<and> update_gui_with_data ''DB_IMPORTED'' its =
       (its,
        if \<exists>s\<in>set its. status s \<noteq> TranslationComplete
             \<and> (\<exists>pre post. ''DB_IMPORTED'' = pre @ original_string s @ post)
        then Some TypeError else None)
   \<and> fst (load_from_db truthy fs path its) = fst (run truthy fs path its)"
proof -
  have a: "load_from_db truthy fs path its =
     (fst (run truthy fs path its), snd (run truthy fs path its),
      if Result ''DB_IMPORTED'' \<in> set (snd (run truthy fs path its))
         \<and> (\<exists>s\<in>set (fst (run truthy fs path its)). status s \<noteq> TranslationComplete
               \<and> (\<exists>pre post. ''DB_IMPORTED'' = pre @ original_string s @ post))
      then [TypeError] else [])"
    by (simp add: load_from_db_def split_beta deliver_run str_contains_iff)
  note b = run_result_iff [of truthy fs path its]
  have c: "\<forall>payload. Result payload \<in> set (snd (run truthy fs path its))
        \<longrightarrow> payload = ''DB_IMPORTED''"
    using run_result_payload [of _ truthy fs path its] by blast
  have d: "update_gui_with_data ''DB_IMPORTED'' its =
       (its,
        if \<exists>s\<in>set its. status s \<noteq> TranslationComplete
             \<and> (\<exists>pre post. ''DB_IMPORTED'' = pre @ original_string s @ post)
        then Some TypeError else None)"
    by (simp add: update_gui_with_data_result str_contains_iff)
  note e = load_from_db_items [of truthy fs path its]
  show ?thesis
    by (rule conjI [OF a conjI [OF b conjI [OF c conjI [OF d e]]]])
qed

theorem result_slot_on_constant_witness:
  "load_from_db (\<lambda>e. True) example_fs (Some ''export.json'')
     [foo_string\<lparr>original_string := ''IMPORT''\<rparr>]
   = ([foo_string\<lparr>original_string := ''IMPORT''\<rparr>],
      [Result ''DB_IMPORTED'', Finished], [TypeError])
   \<and> load_from_db (\<lambda>e. True) example_fs (Some ''export.json'') [foo_string]
   = ([foo_string\<lparr>translated_string := PyStr ''bar'', status := TranslationIncomplete\<rparr>],
      [Progress 100, Result ''DB_IMPORTED'', Finished], [])
   \<and> Result ''DB_IMPORTED''
       \<in> set (snd (run (\<lambda>e. True) example_fs (Some ''export.json'') [foo_string]))
   \<and> load_from_db (\<lambda>e. True) example_fs (Some ''broken.json'')
        [foo_string\<lparr>original_string := ''IMPORT''\<rparr>]
   = ([foo_string\<lparr>original_string := ''IMPORT''\<rparr>], [Error ValueError, Finished], [])"
proof -
  have r1: "run (\<lambda>e. True) example_fs (Some ''export.json'')
              [foo_string\<lparr>original_string := ''IMPORT''\<rparr>]
            = ([foo_string\<lparr>original_string := ''IMPORT''\<rparr>], [Result ''DB_IMPORTED'', Finished])"
    by (simp add: run_def load_data_def example_fs_def endswith_def import_data_def
        import_string_def foo_string_def)
  have r2: "run (\<lambda>e. True) example_fs (Some ''export.json'') [foo_string]
            = ([foo_string\<lparr>translated_string := PyStr ''bar'', status := TranslationIncomplete\<rparr>],
               [Progress 100, Result ''DB_IMPORTED'', Finished])"
    by (simp add: run_def load_data_def example_fs_def endswith_def import_data_def
        import_string_def foo_string_def progress_value_Suc_examples)
  have r3: "run (\<lambda>e. True) example_fs (Some ''broken.json'')
              [foo_string\<lparr>original_string := ''IMPORT''\<rparr>]
            = ([foo_string\<lparr>original_string := ''IMPORT''\<rparr>], [Error ValueError, Finished])"
    by (simp add: run_def load_data_def example_fs_def endswith_def)
  have sub: "\<exists>pre post. ''DB_IMPORTED'' = pre @ ''IMPORT'' @ post"
    by (rule exI [of _ "''DB_''"], rule exI [of _ "''ED''"]) simp
  have "\<not> str_contains ''DB_IMPORTED'' ''foo''"
    by simp
  then have nosub: "\<not> (\<exists>pre post. ''DB_IMPORTED'' = pre @ ''foo'' @ post)"
    using str_contains_iff [of "''DB_IMPORTED''" "''foo''"] by blast
  have l1: "load_from_db (\<lambda>e. True) example_fs (Some ''export.json'')
     [foo_string\<lparr>original_string := ''IMPORT''\<rparr>]
   = ([foo_string\<lparr>original_string := ''IMPORT''\<rparr>],
      [Result ''DB_IMPORTED'', Finished], [TypeError])"
    using result_slot_on_constant [of "\<lambda>e. True" example_fs "Some ''export.json''"
        "[foo_string\<lparr>original_string := ''IMPORT''\<rparr>]", THEN conjunct1]
      sub
    unfolding r1 by (simp add: foo_string_def)
  have l2: "load_from_db (\<lambda>e. True) example_fs (Some ''export.json'') [foo_string]
   = ([foo_string\<lparr>translated_string := PyStr ''bar'', status := TranslationIncomplete\<rparr>],
      [Progress 100, Result ''DB_IMPORTED'', Finished], [])"
    using result_slot_on_constant [of "\<lambda>e. True" example_fs "Some ''export.json''"
        "[foo_string]", THEN conjunct1]
      nosub
    unfolding r2 by (simp add: foo_string_def)
  have l3: "load_from_db (\<lambda>e. True) example_fs (Some ''broken.json'')
        [foo_string\<lparr>original_string := ''IMPORT''\<rparr>]
   = ([foo_string\<lparr>original_string := ''IMPORT''\<rparr>], [Error ValueError, Finished], [])"
    using result_slot_on_constant [of "\<lambda>e. True" example_fs "Some ''broken.json''"
        "[foo_string\<lparr>original_string := ''IMPORT''\<rparr>]", THEN conjunct1]
    unfolding r3 by simp
  show ?thesis
    using l1 l2 l3 by (simp add: r2)
qed


subsection \<open>Matching against a translated plugin\<close>

lemma extract_loop_lookup:
  "map_of (extract_loop strs only dict) key =
     (if filter (\<lambda>t. string_key only t = key) strs = [] then map_of dict key
      else Some ((case map_of dict key of None \<Rightarrow> [] | Some l \<Rightarrow> l)
                 @ filter (\<lambda>t. string_key only t = key) strs))"
proof (induction strs arbitrary: dict)
  case Nil
  then show ?case by simp
next
  case (Cons s rest)
  show ?case
    by (simp add: Cons.IH Let_def update_conv' split: option.splits)
qed

lemma extract_translation_strings_lookup:
  "map_of (extract_translation_strings plugin_strings only) key =
     (if filter (\<lambda>t. string_key only t = key) plugin_strings = [] then None
      else Some (filter (\<lambda>t. string_key only t = key) plugin_strings))"
  by (simp add: extract_translation_strings_def extract_loop_lookup)

lemma import_esp_loop_map:
  "(\<forall>s\<in>set its. import_esp_string only ts s = Inr (f s))
     \<Longrightarrow> import_esp_loop only ts its = (map f its, None)"
  by (induction its) simp_all

lemma string_key_eq:
  "string_key only_edid t = string_key only_edid s \<longleftrightarrow>
     editor_id t = editor_id s \<and> type t = type s \<and> (only_edid \<or> form_id t = form_id s)"
  by (auto simp: string_key_def)

text \<open>
  C6, as amended. \<^verbatim>\<open>import_esp\<close> never raises and handles each string on its own. A
  complete string is skipped, and so is a string without \<^verbatim>\<open>editor_id\<close> in the
  \<^verbatim>\<open>only_edid\<close> mode. The candidates of any other string are the plugin's strings with
  the same \<^verbatim>\<open>editor_id\<close> and \<^verbatim>\<open>type\<close>, and the same \<^verbatim>\<open>form_id\<close> unless the mode is \<^verbatim>\<open>only_edid\<close>, in
  the plugin's order. With no candidate the string is unchanged; with several, the first
  one whose \<^verbatim>\<open>index\<close> equals the string's is chosen, and the string is unchanged when there
  is none; a single candidate is chosen whatever its \<^verbatim>\<open>index\<close>. On a match
  \<^verbatim>\<open>translated_string\<close> becomes the chosen candidate's \<^verbatim>\<open>original_string\<close> and \<^verbatim>\<open>status\<close> becomes
  \<^verbatim>\<open>TranslationIncomplete\<close>: not the candidate's \<^verbatim>\<open>translated_string\<close> and \<^verbatim>\<open>status\<close>, which the
  rule for legacy sources would copy.
\<close>

theorem import_esp_matching:
  "import_esp (Some plugin_strings) only_edid its =
     (map (\<lambda>s.
        if status s = TranslationComplete \<or> (editor_id s = None \<and> only_edid) then s
        else
          (let candidates =
                 filter (\<lambda>t. editor_id t = editor_id s \<and> type t = type s
                               \<and> (only_edid \<or> form_id t = form_id s)) plugin_strings
           in if candidates = [] then s
              else if length candidates > 1 then
                (case filter (\<lambda>t. index t = index s) candidates of
                   [] \<Rightarrow> s
                 | translation # others \<Rightarrow>
                     s\<lparr>translated_string := PyStr (original_string translation),
                       status := TranslationIncomplete\<rparr>)
              else s\<lparr>translated_string := PyStr (original_string (hd candidates)),
                     status := TranslationIncomplete\<rparr>)) its,
      None)"
  unfolding import_esp_def option.case
proof (rule import_esp_loop_map, rule ballI)
  fix s
  assume "s \<in> set its"
  define c where "c = filter (\<lambda>t. string_key only_edid t = string_key only_edid s) plugin_strings"
  have eq: "filter (\<lambda>t. editor_id t = editor_id s \<and> type t = type s
                               \<and> (only_edid \<or> form_id t = form_id s)) plugin_strings = c"
    by (simp add: string_key_eq c_def)
  have lk: "map_of (extract_translation_strings plugin_strings only_edid) (string_key only_edid s)
              = (if c = [] then None else Some c)"
    by (simp add: extract_translation_strings_lookup c_def)
  have "import_esp_string only_edid (extract_translation_strings plugin_strings only_edid) s =
          Inr (if status s = TranslationComplete \<or> (editor_id s = None \<and> only_edid) then s
        else
          (if c = [] then s
              else if length c > 1 then
                (case filter (\<lambda>t. index t = index s) c of
                   [] \<Rightarrow> s
                 | translation # others \<Rightarrow>
                     s\<lparr>translated_string := PyStr (original_string translation),
                       status := TranslationIncomplete\<rparr>)
              else s\<lparr>translated_string := PyStr (original_string (hd c)),
                     status := TranslationIncomplete\<rparr>))"
  proof (cases "status s = TranslationComplete \<or> (editor_id s = None \<and> only_edid)")
    case True
    then show ?thesis
      by (auto simp: import_esp_string_def)
  next
    case False
    show ?thesis
    proof (cases c)
      case Nil
      with False lk show ?thesis
        by (auto simp: import_esp_string_def)
    next
      case (Cons t ts)
      show ?thesis
      proof (cases "length c > 1")
        case True
        with False lk Cons show ?thesis
          by (auto simp: import_esp_string_def split: list.splits)
      next
        case short: False
        with False lk Cons show ?thesis
          by (auto simp: import_esp_string_def)
      qed
    qed
  qed
  then show "import_esp_string only_edid (extract_translation_strings plugin_strings only_edid) s =
          Inr (if status s = TranslationComplete \<or> (editor_id s = None \<and> only_edid) then s
        else
          (let candidates =
                 filter (\<lambda>t. editor_id t = editor_id s \<and> type t = type s
                               \<and> (only_edid \<or> form_id t = form_id s)) plugin_strings
           in if candidates = [] then s
              else if length candidates > 1 then
                (case filter (\<lambda>t. index t = index s) candidates of
                   [] \<Rightarrow> s
                 | translation # others \<Rightarrow>
                     s\<lparr>translated_string := PyStr (original_string translation),
                       status := TranslationIncomplete\<rparr>)
              else s\<lparr>translated_string := PyStr (original_string (hd candidates)),
                     status := TranslationIncomplete\<rparr>))"
    unfolding eq Let_def .
qed

text \<open>
  The claim as stated fails: a plugin string with a translation and a status of its own
  is matched, and neither is copied, while the rule for legacy sources copies both.
\<close>

theorem import_esp_not_legacy_counterexample:
  "import_esp
     (Some [foo_string\<lparr>original_string := ''Hallo'', translated_string := PyStr ''X'',
                       status := TranslationComplete\<rparr>])
     False [foo_string]
   = ([foo_string\<lparr>translated_string := PyStr ''Hallo'', status := TranslationIncomplete\<rparr>], None)
   \<and> foo_string\<lparr>translated_string := PyStr ''Hallo'', status := TranslationIncomplete\<rparr>
       \<noteq> foo_string\<lparr>translated_string := PyStr ''X'', status := TranslationComplete\<rparr>
   \<and> import_string (\<lambda>e. True)
        [(KStr ''foo'', Str (foo_string\<lparr>original_string := ''Hallo'', translated_string := PyStr ''X'',
                       status := TranslationComplete\<rparr>))] False foo_string
       = Inr (foo_string\<lparr>translated_string := PyStr ''X'', status := TranslationComplete\<rparr>)"
  by (simp add: import_esp_def extract_translation_strings_def import_esp_string_def
      string_key_def import_string_def foo_string_def)


subsection \<open>The stacked widget\<close>

text \<open>
  C10. For every integer index and every stack of \<open>n \<ge> 1\<close> pages, \<^verbatim>\<open>slideInIndex\<close>
  targets the page at position \<open>index mod n\<close>, which is a position of the stack. For an
  index past the end the direction is the orientation's forward one (top to bottom, or
  right to left), for a negative index its backward one (bottom to top, or left to
  right), whatever direction was passed; an index in range keeps the direction passed.
\<close>

theorem slideInIndex_target:
  assumes "1 \<le> n"
  shows "\<exists>d. slideInIndex ori n idx dir = Inr (idx mod n, d)
           \<and> 0 \<le> idx mod n \<and> idx mod n < n
           \<and> d = (if idx > n - 1 then (if ori = Vertical then TopToBottom else RightToLeft)
                  else if idx < 0 then (if ori = Vertical then BottomToTop else LeftToRight)
                  else dir)"
  using assms by (auto simp: slideInIndex_def)

theorem slideInIndex_target_witness:
  "(1::int) \<le> 3
   \<and> slideInIndex Horizontal 3 7 LeftToRight = Inr (1, RightToLeft)
   \<and> slideInIndex Vertical 3 (- 1) Automatic = Inr (2, BottomToTop)
   \<and> slideInIndex Vertical 3 2 LeftToRight = Inr (2, LeftToRight)"
  using slideInIndex_target [of 3 Horizontal 7 LeftToRight]
  by (simp add: slideInIndex_def)


end
